theory Spec2Isabelle
  imports Main "HOL-Library.Sublist"
begin

section \<open>g.html2man: the parse tree and the table-of-contents filter\<close>

text \<open>
  The parser hands \<^verbatim>\<open>fix\<close> a Python value built from three shapes, which
  \<^verbatim>\<open>fix\<close> tells apart with \<^verbatim>\<open>isinstance\<close>:
  a tuple \<^verbatim>\<open>(tag, attrs, body)\<close> for an element, a list for a sequence of nodes
  and anything else (character data) for text. \<^verbatim>\<open>fix\<close> itself returns
  \<^verbatim>\<open>None\<close> for a dropped element, so \<^verbatim>\<open>None\<close> is a value of the
  same type.
\<close>

type_synonym attrs = "(string \<times> string) list"

datatype content =
    Tuple string attrs content
  | List "content list"
  | Str string
  | PyNone

text \<open>
  \<^verbatim>\<open>
  def fix(content):
      if isinstance(content, tuple):
          tag, attrs, body = content
          if tag == 'div' and ('class', 'toc') in attrs:
              return None
          else:
              return (tag, attrs, fix(body))
      elif isinstance(content, list):
          return [fixed
                  for item in content
                  for fixed in [fix(item)]
                  if fixed is not None]
      else:
          return content
  \<close>
\<close>

text \<open>
  The function is named \<open>fix_content\<close> here (\<open>fix\<close> is a keyword of the proof
  language). The list comprehension is transcribed as it stands.
\<close>

fun fix_content :: "content \<Rightarrow> content" where
  "fix_content (Tuple tag attrs body) =
     (if tag = ''div'' \<and> (''class'', ''toc'') \<in> set attrs then PyNone
      else Tuple tag attrs (fix_content body))"
| "fix_content (List items) =
     List [fixed. item \<leftarrow> items, fixed \<leftarrow> [fix_content item], fixed \<noteq> PyNone]"
| "fix_content (Str s) = Str s"
| "fix_content PyNone = PyNone"

subsection \<open>Notions used to state the filter's properties\<close>

text \<open>The test of line 19: a tuple whose tag is \<^verbatim>\<open>div\<close> and whose attribute
  sequence contains the pair \<^verbatim>\<open>('class', 'toc')\<close>.\<close>

fun is_toc :: "content \<Rightarrow> bool" where
  "is_toc (Tuple tag attrs body) = (tag = ''div'' \<and> (''class'', ''toc'') \<in> set attrs)"
| "is_toc _ = False"

text \<open>Some node of the tree, at any depth, is such a div.\<close>

fun has_toc :: "content \<Rightarrow> bool" where
  "has_toc (Tuple tag attrs body) = (is_toc (Tuple tag attrs body) \<or> has_toc body)"
| "has_toc (List items) = list_ex has_toc items"
| "has_toc _ = False"

text \<open>The text content of a tree: its character data, in document order.\<close>

fun texts :: "content \<Rightarrow> string list" where
  "texts (Tuple tag attrs body) = texts body"
| "texts (List items) = concat (map texts items)"
| "texts (Str s) = [s]"
| "texts PyNone = []"

text \<open>
  A position in a document where a sequence of nodes can be inserted: between the
  siblings \<open>before\<close> and \<open>after\<close> of some node sequence, which itself may be the body
  of an element or a member of a sequence, at any depth. \<open>plug c ms\<close> is the document
  with the nodes \<open>ms\<close> at that position; \<open>plug c []\<close> is the document without them.
\<close>

datatype ctx =
    Hole "content list" "content list"
  | InTuple string attrs ctx
  | InList "content list" ctx "content list"

fun plug :: "ctx \<Rightarrow> content list \<Rightarrow> content" where
  "plug (Hole before after) ms = List (before @ ms @ after)"
| "plug (InTuple tag attrs c) ms = Tuple tag attrs (plug c ms)"
| "plug (InList before c after) ms = List (before @ plug c ms # after)"

section \<open>The whitespace normalisation of \<^verbatim>\<open>main\<close>\<close>

text \<open>
  \<^verbatim>\<open>
      # strip excess whitespace
      blank_re = re.compile("[ \t\n]*\n([ \t]*\n)*")
      s = blank_re.sub('\n', s)
      s = s.lstrip()
  \<close>
  The pattern is written in an ordinary (not raw) string, so it holds the tab and
  newline characters themselves.
\<close>

abbreviation SP :: char where "SP \<equiv> CHR '' ''"
abbreviation TAB :: char where "TAB \<equiv> CHR 0x09"
abbreviation NL :: char where "NL \<equiv> CHR 0x0A"
abbreviation VT :: char where "VT \<equiv> CHR 0x0B"
abbreviation FF :: char where "FF \<equiv> CHR 0x0C"
abbreviation CR :: char where "CR \<equiv> CHR 0x0D"

subsection \<open>Regular expressions with Python's backtracking order\<close>

text \<open>
  The fragment of \<^verbatim>\<open>re\<close> that the pattern uses: a character (or a class of
  characters), concatenation and the greedy star; a group only brackets.
\<close>

datatype regex =
    Chars "char list"
  | Seq regex regex
  | Star regex

text \<open>
  \<open>matches r s\<close> lists what is left of \<open>s\<close> after each way of matching \<open>r\<close> at its
  start, in the order in which a backtracking matcher tries them: a greedy star first
  tries one more iteration, and only then stops. The first entry is the match that
  \<^verbatim>\<open>re\<close> reports at this position. An iteration of a star that consumes nothing is
  not repeated.
\<close>

fun matches :: "regex \<Rightarrow> string \<Rightarrow> string list" where
  "matches (Chars cs) s =
     (case s of [] \<Rightarrow> [] | c # rest \<Rightarrow> if c \<in> set cs then [rest] else [])"
| "matches (Seq r1 r2) s = concat (map (matches r2) (matches r1 s))"
| "matches (Star r) s =
     concat (map (\<lambda>s'. if length s' < length s then matches (Star r) s' else [])
               (matches r s)) @ [s]"

definition re_match :: "regex \<Rightarrow> string \<Rightarrow> string option" where
  "re_match r s = (case matches r s of [] \<Rightarrow> None | rest # _ \<Rightarrow> Some rest)"

text \<open>
  \<^verbatim>\<open>pattern.sub(repl, s)\<close> with a replacement string without group references:
  scanning from the left, the leftmost match is replaced and the scan goes on behind
  it; where the pattern does not match, the character is copied. (An empty match is
  replaced and the next character copied; \<open>blank_re\<close> below has no empty match.)
\<close>

function re_sub :: "regex \<Rightarrow> string \<Rightarrow> string \<Rightarrow> string" where
  "re_sub r repl [] = (case re_match r [] of None \<Rightarrow> [] | Some _ \<Rightarrow> repl)"
| "re_sub r repl (c # cs) =
     (case re_match r (c # cs) of
        None \<Rightarrow> c # re_sub r repl cs
      | Some rest \<Rightarrow>
          if length rest < length (c # cs) then repl @ re_sub r repl rest
          else repl @ c # re_sub r repl cs)"
  by pat_completeness auto
termination
  by (relation "measure (\<lambda>(r, repl, s). length s)") auto

declare re_sub.simps [simp del]

text \<open>The pattern \<^verbatim>\<open>[ \t\n]*\n([ \t]*\n)*\<close>.\<close>

definition blank_re :: regex where
  "blank_re =
     Seq (Star (Chars [SP, TAB, NL]))
       (Seq (Chars [NL]) (Star (Seq (Star (Chars [SP, TAB])) (Chars [NL]))))"

text \<open>
  \<^verbatim>\<open>str.lstrip()\<close> without argument removes the leading whitespace of a byte
  string: space, tab, newline, vertical tab, form feed and carriage return.
\<close>

definition isspace :: "char \<Rightarrow> bool" where
  "isspace c = (c \<in> set [SP, TAB, NL, VT, FF, CR])"

definition lstrip :: "string \<Rightarrow> string" where
  "lstrip s = dropWhile isspace s"

text \<open>
  Lines 61 to 63 of \<^verbatim>\<open>main\<close>, as a function of the text \<open>s\<close>: the
  normalisation, which the source does not name.
\<close>

definition normalize_text :: "string \<Rightarrow> string" where
  "normalize_text s = lstrip (re_sub blank_re [NL] s)"

subsection \<open>Notions used to state the normalisation's properties\<close>

text \<open>The last part of the pattern, \<^verbatim>\<open>[ \t]*\n\<close>: one more blank line.\<close>

definition line_re :: regex where
  "line_re = Seq (Star (Chars [SP, TAB])) (Chars [NL])"

text \<open>The text begins with spaces and tabs followed by a newline, or with a newline.\<close>

fun starts_blank :: "string \<Rightarrow> bool" where
  "starts_blank [] = False"
| "starts_blank (c # s) = (c = NL \<or> ((c = SP \<or> c = TAB) \<and> starts_blank s))"

text \<open>Somewhere in the text a space, a tab or a newline stands right before a newline.\<close>

fun ws_before_nl :: "string \<Rightarrow> bool" where
  "ws_before_nl (c # d # s) =
     (((c = NL \<or> c = SP \<or> c = TAB) \<and> d = NL) \<or> ws_before_nl (d # s))"
| "ws_before_nl _ = False"

text \<open>
  Lines: \<open>split_lines s\<close> is the list of the newline-terminated lines of \<open>s\<close>, each
  without its newline, and the text behind the last newline. A line is blank when it
  is empty or holds only spaces and tabs.
\<close>

fun split_lines :: "string \<Rightarrow> string list \<times> string" where
  "split_lines [] = ([], [])"
| "split_lines (c # s) =
     (case split_lines s of
        (ls, r) \<Rightarrow>
          if c = NL then ([] # ls, r)
          else (case ls of [] \<Rightarrow> ([], c # r) | l # ls' \<Rightarrow> ((c # l) # ls', r)))"

definition join_lines :: "string list \<times> string \<Rightarrow> string" where
  "join_lines p = concat (map (\<lambda>l. l @ [NL]) (fst p)) @ snd p"

definition blank :: "string \<Rightarrow> bool" where
  "blank l = list_all (\<lambda>c. c = SP \<or> c = TAB) l"

text \<open>
  The transform as the specification words it (section 4.4): every maximal run of
  blank lines becomes a single newline, then the leading blank lines are removed, and
  nothing else changes.
\<close>

fun squeeze_blank :: "string list \<Rightarrow> string list" where
  "squeeze_blank [] = []"
| "squeeze_blank [l] = [if blank l then [] else l]"
| "squeeze_blank (l # m # ls) =
     (if blank l \<and> blank m then squeeze_blank (m # ls)
      else (if blank l then [] else l) # squeeze_blank (m # ls))"

definition spec_normalize :: "string \<Rightarrow> string" where
  "spec_normalize s =
     (case split_lines s of
        (ls, r) \<Rightarrow> join_lines (dropWhile blank (squeeze_blank ls), r))"

text \<open>
  What the code does, line by line: the blank lines go, every other newline-terminated
  line loses its trailing spaces and tabs, and the text behind the last newline stays.
\<close>

definition rstrip_blanks :: "string \<Rightarrow> string" where
  "rstrip_blanks l = rev (dropWhile (\<lambda>c. c = SP \<or> c = TAB) (rev l))"

definition tidy_lines :: "string \<Rightarrow> string" where
  "tidy_lines s =
     (case split_lines s of
        (ls, r) \<Rightarrow> join_lines (map rstrip_blanks (filter (\<lambda>l. \<not> blank l) ls), r))"

section \<open>\<^verbatim>\<open>main\<close>\<close>

text \<open>
  The modules \<^verbatim>\<open>html\<close> (the parser) and \<^verbatim>\<open>groff\<close> (the formatter) are not
  part of the source at hand, so \<^verbatim>\<open>main\<close> takes them as parameters. An exception is
  either an \<^verbatim>\<open>HTMLParseError\<close> with its line number, offset and message, or any
  other \<^verbatim>\<open>Exception\<close>, of which \<^verbatim>\<open>main\<close> uses only the \<^verbatim>\<open>repr\<close>.
\<close>

datatype py_exn =
    HTMLParseError int int string
  | PyException string

text \<open>
  The parser: \<^verbatim>\<open>HTMLParser(entities)\<close>, \<^verbatim>\<open>p.feed(line)\<close>, \<^verbatim>\<open>p.close()\<close>
  and \<^verbatim>\<open>p.data\<close>, over a parser state of any type.
\<close>

record 'p parser_ops =
  p_new :: "'p"
  p_feed :: "'p \<Rightarrow> string \<Rightarrow> py_exn + 'p"
  p_close :: "'p \<Rightarrow> py_exn + 'p"
  p_data :: "'p \<Rightarrow> content"

text \<open>
  The formatter: \<^verbatim>\<open>Formatter(infile, sf).pp(data)\<close> followed by
  \<^verbatim>\<open>sf.getvalue()\<close> gives the text written to the buffer, or raises.
\<close>

type_synonym formatter = "string \<Rightarrow> content \<Rightarrow> py_exn + string"

text \<open>
  What a run does to the outside: the files it opens, writes and closes and what it
  writes to the error stream, in order; and how it ends. A run ends by returning from
  \<^verbatim>\<open>main\<close>, by \<^verbatim>\<open>sys.exit\<close>, or with an exception that nothing catches (the
  interpreter then prints a traceback and the exit status is 1).
\<close>

datatype event =
    OpenIn string
  | CloseIn
  | WriteErr string
  | OpenOut string
  | WriteOut string
  | CloseOut

datatype outcome =
    Returned
  | SysExit int
  | Raised py_exn

record run =
  outcome :: outcome
  trace :: "event list"

fun exit_status :: "outcome \<Rightarrow> int" where
  "exit_status Returned = 0"
| "exit_status (SysExit n) = n"
| "exit_status (Raised e) = 1"

text \<open>The conversion \<^verbatim>\<open>%d\<close> of an integer.\<close>

function dec_digits :: "nat \<Rightarrow> string" where
  "dec_digits n =
     (if n < 10 then [''0123456789'' ! n]
      else dec_digits (n div 10) @ [''0123456789'' ! (n mod 10)])"
  by pat_completeness auto
termination
  by (relation "measure id") auto

declare dec_digits.simps [simp del]

definition fmt_d :: "int \<Rightarrow> string" where
  "fmt_d i = (if i < 0 then CHR ''-'' # dec_digits (nat (- i)) else dec_digits (nat i))"

text \<open>
  \<^verbatim>\<open>
      for n, line in enumerate(inf):
          try:
              p.feed(line)
          except HTMLParseError as err:
              sys.stderr.write(
                  '%s:%d:%d: Parse error: %s\n' %
                  (infile, err.lineno, err.offset, err.msg))
              sys.exit(1)
          except Exception as err:
              sys.stderr.write(
                  '%s:%d:0: Error (%s): %s\n' %
                  (infile, n + 1, repr(err), line))
              sys.exit(1)
  \<close>
  The loop either feeds every line and ends with the parser's state, or stops at the
  first line whose feeding raises, with the text it writes to the error stream.
\<close>

fun diagnostic :: "string \<Rightarrow> nat \<Rightarrow> string \<Rightarrow> py_exn \<Rightarrow> string" where
  "diagnostic infile n line (HTMLParseError lineno offset msg) =
     infile @ '':'' @ fmt_d lineno @ '':'' @ fmt_d offset @ '': Parse error: '' @ msg @ [NL]"
| "diagnostic infile n line (PyException repr) =
     infile @ '':'' @ fmt_d (int n + 1) @ '':0: Error ('' @ repr @ ''): '' @ line @ [NL]"

fun feed_lines :: "'p parser_ops \<Rightarrow> string \<Rightarrow> 'p \<Rightarrow> nat \<Rightarrow> string list \<Rightarrow> string + 'p" where
  "feed_lines ops infile p n [] = Inr p"
| "feed_lines ops infile p n (line # rest) =
     (case p_feed ops p line of
        Inl err \<Rightarrow> Inl (diagnostic infile n line err)
      | Inr p' \<Rightarrow> feed_lines ops infile p' (Suc n) rest)"

text \<open>
  The destination file, lines 66 to 68: \<open>d_open name\<close> tells whether
  \<^verbatim>\<open>file(name, 'w')\<close> succeeds, \<open>d_write name s\<close> whether \<^verbatim>\<open>outf.write(s)\<close>
  does and \<open>d_close name\<close> whether \<^verbatim>\<open>outf.close()\<close> does. Where one does not,
  the call raises an \<^verbatim>\<open>IOError\<close>, which nothing catches.
\<close>

record destination =
  d_open :: "string \<Rightarrow> bool"
  d_write :: "string \<Rightarrow> string \<Rightarrow> bool"
  d_close :: "string \<Rightarrow> bool"

text \<open>
  \<^verbatim>\<open>main\<close>, given the parser, the formatter, the readable files (a file is the
  list of its lines, each with its line end), the destination and \<^verbatim>\<open>sys.argv\<close>.
  An event of the trace is a call that returned.
\<close>

definition main ::
  "'p parser_ops \<Rightarrow> formatter \<Rightarrow> (string \<rightharpoonup> string list) \<Rightarrow> destination \<Rightarrow> string list \<Rightarrow> run" where
  "main ops pp fs dst argv =
     (if length argv \<le> 1 then \<lparr>outcome = Raised (PyException ''IndexError''), trace = []\<rparr>
      else let infile = argv ! 1 in
        case fs infile of
          None \<Rightarrow> \<lparr>outcome = Raised (PyException ''IOError''), trace = []\<rparr>
        | Some lines \<Rightarrow>
            (case feed_lines ops infile (p_new ops) 0 lines of
               Inl text \<Rightarrow> \<lparr>outcome = SysExit 1, trace = [OpenIn infile, WriteErr text]\<rparr>
             | Inr p \<Rightarrow>
                 (case p_close ops p of
                    Inl err \<Rightarrow> \<lparr>outcome = Raised err, trace = [OpenIn infile]\<rparr>
                  | Inr p' \<Rightarrow>
                      (case pp infile (fix_content (p_data ops p')) of
                         Inl err \<Rightarrow> \<lparr>outcome = Raised err, trace = [OpenIn infile, CloseIn]\<rparr>
                       | Inr s \<Rightarrow>
                           if length argv \<le> 2
                           then \<lparr>outcome = Raised (PyException ''IndexError''),
                                 trace = [OpenIn infile, CloseIn]\<rparr>
                           else if \<not> d_open dst (argv ! 2)
                           then \<lparr>outcome = Raised (PyException ''IOError''),
                                 trace = [OpenIn infile, CloseIn]\<rparr>
                           else if \<not> d_write dst (argv ! 2) (normalize_text s)
                           then \<lparr>outcome = Raised (PyException ''IOError''),
                                 trace = [OpenIn infile, CloseIn, OpenOut (argv ! 2)]\<rparr>
                           else if \<not> d_close dst (argv ! 2)
                           then \<lparr>outcome = Raised (PyException ''IOError''),
                                 trace = [OpenIn infile, CloseIn, OpenOut (argv ! 2),
                                          WriteOut (normalize_text s)]\<rparr>
                           else \<lparr>outcome = Returned,
                                 trace = [OpenIn infile, CloseIn, OpenOut (argv ! 2),
                                          WriteOut (normalize_text s), CloseOut]\<rparr>))))"

subsection \<open>Notions used to state the properties of \<^verbatim>\<open>main\<close>\<close>

text \<open>What a run wrote to the error stream, write by write.\<close>

fun stderr_writes :: "event list \<Rightarrow> string list" where
  "stderr_writes [] = []"
| "stderr_writes (WriteErr text # es) = text # stderr_writes es"
| "stderr_writes (e # es) = stderr_writes es"

text \<open>A text that is one line: it ends with a newline and holds no other newline.\<close>

definition single_line :: "string \<Rightarrow> bool" where
  "single_line t = (t \<noteq> [] \<and> last t = NL \<and> NL \<notin> set (butlast t))"

text \<open>The events that touch the destination file.\<close>

fun touches_output :: "event \<Rightarrow> bool" where
  "touches_output (OpenOut name) = True"
| "touches_output (WriteOut text) = True"
| "touches_output CloseOut = True"
| "touches_output e = False"

text \<open>
  A toy parser and a toy formatter, used only to run \<^verbatim>\<open>main\<close> on examples: the
  parser collects the lines as text nodes and raises on two particular lines, the
  formatter writes the text content.
\<close>

definition demo_ops :: "content list parser_ops" where
  "demo_ops =
     \<lparr>p_new = [],
      p_feed = (\<lambda>p line.
         if line = ''<<\<newline>'' then Inl (HTMLParseError 12 7 ''malformed start tag'')
         else if line = ''&#;\<newline>'' then Inl (PyException ''ValueError()'')
         else Inr (p @ [Str line])),
      p_close = Inr,
      p_data = List\<rparr>"

definition demo_pp :: formatter where
  "demo_pp infile c = Inr (concat (texts c))"

text \<open>A destination on which every call succeeds.\<close>

definition demo_dst :: destination where
  "demo_dst = \<lparr>d_open = (\<lambda>name. True), d_write = (\<lambda>name s. True), d_close = (\<lambda>name. True)\<rparr>"

text \<open>
  The same toy parser, except that it finds an unclosed tag only when it is closed, as
  a parser does that keeps an incomplete tag in its buffer until the end of the input.
\<close>

definition demo_ops_eof :: "content list parser_ops" where
  "demo_ops_eof =
     demo_ops\<lparr>p_close := (\<lambda>p.
        if Str ''<div'' \<in> set p then Inl (HTMLParseError 1 0 ''EOF in middle of construct'')
        else Inr p)\<rparr>"

section \<open>Properties of the filter\<close>

lemma fix_content_List:
  "fix_content (List items) =
     List (map fix_content (filter (\<lambda>item. fix_content item \<noteq> PyNone) items))"
  by (induction items) auto

lemma fix_content_no_toc: "\<not> has_toc (fix_content D)"
  by (induction D rule: fix_content.induct) (auto simp: fix_content_List list_ex_iff)

lemma fix_content_plug_toc:
  "is_toc d \<Longrightarrow> fix_content (plug c [d]) = fix_content (plug c [])"
  by (induction c) (cases d; auto)+

lemma subseq_concat_filter:
  "(\<And>x. x \<in> set xs \<Longrightarrow> subseq (f x) (g x)) \<Longrightarrow>
     subseq (concat (map f (filter Q xs))) (concat (map g xs))"
proof (induction xs)
  case Nil
  then show ?case by simp
next
  case (Cons x xs)
  then have rest: "subseq (concat (map f (filter Q xs))) (concat (map g xs))"
    by simp
  show ?case
  proof (cases "Q x")
    case True
    with Cons.prems rest show ?thesis by (simp add: list_emb_append_mono)
  next
    case False
    with rest show ?thesis by (simp add: list_emb_append2)
  qed
qed

lemma texts_fix_content_subseq: "subseq (texts (fix_content D)) (texts D)"
proof (induction D)
  case (List items)
  have "subseq
          (concat (map (\<lambda>x. texts (fix_content x))
             (filter (\<lambda>item. fix_content item \<noteq> PyNone) items)))
          (concat (map texts items))"
    using List by (rule subseq_concat_filter)
  then show ?case
    by (simp add: fix_content_List o_def del: fix_content.simps(2))
qed simp_all

text \<open>
  C1. A div whose attribute sequence contains the pair (class, toc) is dropped by the
  filter with its whole subtree: the filter returns no node for it, and wherever it
  stands in a node sequence, at any depth, the filtered document is the filtered
  document without it. So the siblings and ancestors come out as if the subtree had
  never been there, the output holds no such div, and its text content is a
  subsequence (same relative order) of the text outside the dropped subtree.
\<close>

theorem fix_content_drops_toc:
  assumes "is_toc d"
  shows "fix_content d = PyNone
       \<and> fix_content (plug c [d]) = fix_content (plug c [])
       \<and> \<not> has_toc (fix_content (plug c [d]))
       \<and> subseq (texts (fix_content (plug c [d]))) (texts (plug c []))"
proof -
  have "fix_content d = PyNone"
    using assms by (cases d) simp_all
  moreover have same: "fix_content (plug c [d]) = fix_content (plug c [])"
    using assms by (rule fix_content_plug_toc)
  moreover have "subseq (texts (fix_content (plug c [d]))) (texts (plug c []))"
    unfolding same by (rule texts_fix_content_subseq)
  ultimately show ?thesis
    using fix_content_no_toc by blast
qed

theorem fix_content_drops_toc_witness:
  "is_toc (Tuple ''div'' [(''id'', ''x''), (''class'', ''toc'')]
             (List [Tuple ''ul'' [] (List [Tuple ''li'' [] (List [Str ''A''])])]))
   \<and> fix_content (plug (InList [Str ''t''] (InTuple ''body'' [] (Hole [] [Tuple ''p'' [] (List [Str ''Body''])])) [])
        [Tuple ''div'' [(''id'', ''x''), (''class'', ''toc'')]
           (List [Tuple ''ul'' [] (List [Tuple ''li'' [] (List [Str ''A''])])])])
     = List [Str ''t'', Tuple ''body'' [] (List [Tuple ''p'' [] (List [Str ''Body''])])]"
  using fix_content_drops_toc
    [of "Tuple ''div'' [(''id'', ''x''), (''class'', ''toc'')]
           (List [Tuple ''ul'' [] (List [Tuple ''li'' [] (List [Str ''A''])])])"
        "InList [Str ''t''] (InTuple ''body'' [] (Hole [] [Tuple ''p'' [] (List [Str ''Body''])])) []"]
  by simp

text \<open>
  C2. An element that is not a div with the pair (class, toc) is kept with its tag and
  attribute sequence, its body filtered. A node sequence becomes the sequence of its
  filtered members, in their order, without those for which the filter returns no
  node. Text passes through unchanged.
\<close>

theorem fix_content_keeps_rest:
  "(\<not> (tag = ''div'' \<and> (''class'', ''toc'') \<in> set attrs) \<longrightarrow>
      fix_content (Tuple tag attrs body) = Tuple tag attrs (fix_content body))
   \<and> fix_content (List items) =
       List (map fix_content (filter (\<lambda>item. fix_content item \<noteq> PyNone) items))
   \<and> fix_content (Str s) = Str s"
  using fix_content_List by simp

theorem fix_content_keeps_rest_witness:
  "\<not> (''p'' = ''div'' \<and> (''class'', ''toc'') \<in> set [(''class'', ''note'')])
   \<and> fix_content (Tuple ''p'' [(''class'', ''note'')]
        (List [Str ''a'', Tuple ''div'' [(''class'', ''toc'')] (List [Str ''b'']), Str ''c'']))
     = Tuple ''p'' [(''class'', ''note'')] (List [Str ''a'', Str ''c''])"
  using fix_content_keeps_rest
    [of "''p''" "[(''class'', ''note'')]"
        "List [Str ''a'', Tuple ''div'' [(''class'', ''toc'')] (List [Str ''b'']), Str ''c'']"]
  by simp

text \<open>
  C3. The filter is idempotent on every value it can be given: a document, a node
  sequence, an element or a text.
\<close>

theorem fix_content_idempotent: "fix_content (fix_content D) = fix_content D"
proof (induction D)
  case (List items)
  let ?kept = "filter (\<lambda>item. fix_content item \<noteq> PyNone) items"
  have again: "fix_content (fix_content x) = fix_content x" if "x \<in> set ?kept" for x
    using that List by simp
  have "filter (\<lambda>y. fix_content y \<noteq> PyNone) (map fix_content ?kept) = map fix_content ?kept"
    unfolding filter_id_conv using again by auto
  moreover have "map fix_content (map fix_content ?kept) = map fix_content ?kept"
    using again by simp
  ultimately show ?case by (simp only: fix_content_List)
qed simp_all

section \<open>Properties of the normalisation\<close>

subsection \<open>How the pattern matches and what the substitution does\<close>

lemma seq_star_chars_Cons:
  "matches (Seq (Star (Chars cs)) r) (c # s) =
     (if c \<in> set cs then matches (Seq (Star (Chars cs)) r) s @ matches r (c # s) else matches r (c # s))"
  by simp

lemma matches_blank_Nil: "matches blank_re [] = []"
  by (simp add: blank_re_def)

lemma matches_blank_Cons:
  "matches blank_re (c # s) =
     (if c = NL then matches blank_re s @ matches (Star line_re) s
      else if c = SP \<or> c = TAB then matches blank_re s else [])"
  unfolding blank_re_def line_re_def
  by (subst seq_star_chars_Cons) (auto simp del: matches.simps(3))

lemma matches_line_Nil: "matches line_re [] = []"
  by (simp add: line_re_def)

lemma matches_line_Cons:
  "matches line_re (c # s) =
     (if c = NL then [s] else if c = SP \<or> c = TAB then matches line_re s else [])"
  unfolding line_re_def
  by (subst seq_star_chars_Cons) (auto simp del: matches.simps(3))

lemma no_blank_no_line: "matches blank_re s = [] \<Longrightarrow> matches line_re s = []"
  by (induction s)
    (auto simp: matches_blank_Nil matches_line_Nil matches_blank_Cons matches_line_Cons
      split: if_splits)


lemma re_match_blank_Nil: "re_match blank_re [] = None"
  by (simp add: re_match_def matches_blank_Nil)

lemma re_match_blank_Cons:
  "re_match blank_re (c # s) =
     (if c = NL then (case re_match blank_re s of None \<Rightarrow> Some s | Some r \<Rightarrow> Some r)
      else if c = SP \<or> c = TAB then re_match blank_re s else None)"
proof (cases "matches blank_re s")
  case Nil
  then have "matches line_re s = []" by (rule no_blank_no_line)
  then have "matches (Star line_re) s = [s]" by simp
  with Nil show ?thesis by (simp add: re_match_def matches_blank_Cons del: matches.simps(3))
next
  case (Cons r rs)
  then show ?thesis by (simp add: re_match_def matches_blank_Cons)
qed

lemma re_match_blank_shorter: "re_match blank_re s = Some r \<Longrightarrow> length r < length s"
  by (induction s) (auto simp: re_match_blank_Nil re_match_blank_Cons split: if_splits option.splits)

lemma starts_blank_iff: "starts_blank s \<longleftrightarrow> re_match blank_re s \<noteq> None"
  by (induction s) (auto simp: re_match_blank_Nil re_match_blank_Cons split: option.splits)


lemma blank_sub_Nil: "re_sub blank_re [NL] [] = []"
  by (simp add: re_match_blank_Nil re_sub.simps)


lemma blank_sub_Cons:
  "re_sub blank_re [NL] (c # s) = (if (c = NL \<or> c = SP \<or> c = TAB) \<and> starts_blank s then re_sub blank_re [NL] s else c # re_sub blank_re [NL] s)"
proof (cases s)
  case Nil
  then show ?thesis by (simp add: re_match_blank_Nil re_match_blank_Cons re_sub.simps)
next
  case (Cons d t)
  show ?thesis
  proof (cases "re_match blank_re s")
    case None
    then show ?thesis
      by (auto simp: starts_blank_iff re_match_blank_Cons re_sub.simps)
  next
    case (Some r)
    then have "length r < length s" by (rule re_match_blank_shorter)
    with Some Cons show ?thesis
      by (auto simp: starts_blank_iff re_match_blank_Cons re_sub.simps)
  qed
qed



lemma blank_sub_starts_NL: "(\<exists>t. re_sub blank_re [NL] s = NL # t) \<longleftrightarrow> starts_blank s"
  by (induction s) (auto simp: blank_sub_Nil blank_sub_Cons)

lemma blank_sub_tidy: "\<not> ws_before_nl (re_sub blank_re [NL] s)"
proof (induction s)
  case Nil
  show ?case by (simp add: blank_sub_Nil)
next
  case (Cons c s)
  show ?case
  proof (cases "(c = NL \<or> c = SP \<or> c = TAB) \<and> starts_blank s")
    case True
    with Cons show ?thesis by (simp add: blank_sub_Cons)
  next
    case False
    then have eq: "re_sub blank_re [NL] (c # s) = c # re_sub blank_re [NL] s" by (simp add: blank_sub_Cons)
    show ?thesis
    proof (cases "re_sub blank_re [NL] s")
      case Nil
      with eq show ?thesis by simp
    next
      case (Cons d t)
      have "\<not> ((c = NL \<or> c = SP \<or> c = TAB) \<and> d = NL)"
        using False Cons blank_sub_starts_NL [of s] by auto
      with Cons eq \<open>\<not> ws_before_nl (re_sub blank_re [NL] s)\<close> show ?thesis by simp
    qed
  qed
qed

lemma tidy_not_starts_blank:
  "\<not> ws_before_nl (c # s) \<Longrightarrow> c = NL \<or> c = SP \<or> c = TAB \<Longrightarrow> \<not> starts_blank s"
  by (induction s arbitrary: c) auto

lemma tidy_tl: "\<not> ws_before_nl (c # s) \<Longrightarrow> \<not> ws_before_nl s"
  by (cases s) auto

lemma blank_sub_fixpoint: "\<not> ws_before_nl t \<Longrightarrow> re_sub blank_re [NL] t = t"
proof (induction t)
  case Nil
  show ?case by (simp add: blank_sub_Nil)
next
  case (Cons c t)
  then have "re_sub blank_re [NL] t = t" by (simp add: tidy_tl)
  moreover have "\<not> ((c = NL \<or> c = SP \<or> c = TAB) \<and> starts_blank t)"
    using Cons.prems tidy_not_starts_blank by blast
  ultimately show ?case by (simp add: blank_sub_Cons)
qed

lemma tidy_dropWhile: "\<not> ws_before_nl s \<Longrightarrow> \<not> ws_before_nl (dropWhile P s)"
  by (induction s) (auto simp: tidy_tl simp del: ws_before_nl.simps)

lemma ws_before_nl_append:
  "c = SP \<or> c = TAB \<or> c = NL \<Longrightarrow> ws_before_nl (u @ c # NL # v)"
  by (induction u rule: ws_before_nl.induct) auto

lemma normalize_tidy: "\<not> ws_before_nl (normalize_text T)"
  unfolding normalize_text_def lstrip_def by (rule tidy_dropWhile) (rule blank_sub_tidy)

lemma normalize_no_leading_space: "\<not> (\<exists>c v. normalize_text T = c # v \<and> isspace c)"
  unfolding normalize_text_def lstrip_def
  by (metis hd_dropWhile list.sel(1) list.distinct(1))

text \<open>
  C6. Normalising a normalised text changes nothing, where normalising is the
  substitution of the blank-line pattern followed by the strip of leading whitespace.
\<close>

theorem normalize_idempotent: "normalize_text (normalize_text T) = normalize_text T"
proof -
  have "re_sub blank_re [NL] (normalize_text T) = normalize_text T"
    using normalize_tidy by (rule blank_sub_fixpoint)
  then have "normalize_text (normalize_text T) = lstrip (normalize_text T)"
    by (simp add: normalize_text_def)
  also have "\<dots> = normalize_text T"
    by (simp add: normalize_text_def lstrip_def)
  finally show ?thesis .
qed

text \<open>
  C7. The normalised text never starts with a blank line, be it a newline alone or
  spaces and tabs up to a newline; indeed it starts with no whitespace character at
  all, so it is not one unterminated line of whitespace either.
\<close>

theorem normalize_no_leading_blank_line:
  "\<not> (\<exists>v. normalize_text T = NL # v)
   \<and> \<not> (\<exists>l v. normalize_text T = l @ NL # v \<and> blank l)
   \<and> \<not> (\<exists>c v. normalize_text T = c # v \<and> isspace c)"
proof -
  have none: "\<not> isspace c" if "normalize_text T = c # v" for c v
    using that normalize_no_leading_space by blast
  have "\<not> (\<exists>v. normalize_text T = NL # v)"
    using none by (auto simp: isspace_def)
  moreover have "\<not> (\<exists>l v. normalize_text T = l @ NL # v \<and> blank l)"
  proof
    assume "\<exists>l v. normalize_text T = l @ NL # v \<and> blank l"
    then obtain l v where eq: "normalize_text T = l @ NL # v" and l: "blank l" by blast
    show False
    proof (cases l)
      case Nil
      with eq none [of NL v] show False by (simp add: isspace_def)
    next
      case (Cons c l')
      with eq l none [of c "l' @ NL # v"] show False
        by (auto simp: isspace_def blank_def)
    qed
  qed
  ultimately show ?thesis
    using normalize_no_leading_space by blast
qed

subsection \<open>The normalisation, line by line\<close>

lemma blank_Nil: "blank []"
  by (simp add: blank_def)

lemma blank_Cons: "blank (c # l) \<longleftrightarrow> (c = SP \<or> c = TAB) \<and> blank l"
  by (simp add: blank_def)

lemma rstrip_blanks_Nil: "rstrip_blanks [] = []"
  by (simp add: rstrip_blanks_def)

lemma rstrip_blanks_Cons:
  "rstrip_blanks (c # l) =
     (if blank l then (if c = SP \<or> c = TAB then [] else [c]) else c # rstrip_blanks l)"
  by (auto simp: rstrip_blanks_def blank_def dropWhile_append list_all_iff)

lemma starts_blank_split:
  "starts_blank s \<longleftrightarrow> (case fst (split_lines s) of [] \<Rightarrow> False | l # ls \<Rightarrow> blank l)"
  by (induction s) (auto simp: blank_Nil blank_Cons split: prod.splits list.splits)

lemma tidy_lines_Nil: "tidy_lines [] = []"
  by (simp add: tidy_lines_def join_lines_def)

lemma tidy_lines_Cons:
  "tidy_lines (c # s) =
     (if c = NL \<or> ((c = SP \<or> c = TAB) \<and> starts_blank s) then tidy_lines s
      else if starts_blank s then c # NL # tidy_lines s
      else c # tidy_lines s)"
  by (auto simp: tidy_lines_def join_lines_def starts_blank_split blank_Nil blank_Cons
      rstrip_blanks_Cons split: prod.splits list.splits)

lemma blank_sub_tidy_lines:
  "re_sub blank_re [NL] s = (if starts_blank s then NL # tidy_lines s else tidy_lines s)"
  by (induction s) (auto simp: blank_sub_Nil blank_sub_Cons tidy_lines_Nil tidy_lines_Cons)

lemma join_split_lines: "join_lines (split_lines s) = s"
  by (induction s) (auto simp: join_lines_def split: prod.splits list.splits)

lemma normalize_text_tidy_lines: "normalize_text s = lstrip (tidy_lines s)"
  by (simp add: normalize_text_def blank_sub_tidy_lines lstrip_def isspace_def)

text \<open>
  C5, as stated, does not hold: on a text without any blank line, whose first line
  ends in a space, the transform of the specification changes nothing, while the code
  removes the space.
\<close>

theorem normalize_text_not_spec_counterexample:
  "spec_normalize ''a \<newline>b'' = ''a \<newline>b''
   \<and> normalize_text ''a \<newline>b'' = ''a\<newline>b''
   \<and> normalize_text ''a \<newline>b'' \<noteq> spec_normalize ''a \<newline>b''"
  by (simp add: normalize_text_tidy_lines tidy_lines_def spec_normalize_def join_lines_def
      blank_def rstrip_blanks_def lstrip_def isspace_def)

text \<open>
  C5, amended. The normalisation is this function of the text alone: of the
  newline-terminated lines, those that are empty or hold only spaces and tabs are
  deleted (no blank line is left, not one per run) and the others lose their trailing
  spaces and tabs; the text behind the last newline stays; then all leading whitespace
  of the document is stripped. Here a text is its lines joined again, so nothing else
  changes.
\<close>

theorem normalize_text_by_lines:
  "join_lines (split_lines T) = T
   \<and> normalize_text T =
       lstrip (join_lines (map rstrip_blanks (filter (\<lambda>l. \<not> blank l) (fst (split_lines T))),
                           snd (split_lines T)))"
  using normalize_text_tidy_lines [of T]
  by (simp add: join_split_lines tidy_lines_def split: prod.splits)

lemma rstrip_blanks_split: "\<exists>t. l = rstrip_blanks l @ t \<and> blank t"
proof -
  let ?P = "\<lambda>c. c = SP \<or> c = TAB"
  have "rev l = takeWhile ?P (rev l) @ dropWhile ?P (rev l)"
    by simp
  then have "l = rev (dropWhile ?P (rev l)) @ rev (takeWhile ?P (rev l))"
    by (metis rev_append rev_rev_ident)
  moreover have "blank (rev (takeWhile ?P (rev l)))"
    by (auto simp: blank_def list_all_iff dest: set_takeWhileD)
  ultimately show ?thesis
    unfolding rstrip_blanks_def by blast
qed

lemma rstrip_blanks_end: "\<not> (\<exists>u c. rstrip_blanks l = u @ [c] \<and> (c = SP \<or> c = TAB))"
proof
  let ?P = "\<lambda>c. c = SP \<or> c = TAB"
  assume "\<exists>u c. rstrip_blanks l = u @ [c] \<and> (c = SP \<or> c = TAB)"
  then obtain u c where eq: "rev (dropWhile ?P (rev l)) = u @ [c]" and c: "?P c"
    unfolding rstrip_blanks_def by blast
  from eq have "rev (rev (dropWhile ?P (rev l))) = rev (u @ [c])"
    by (rule arg_cong)
  then have "dropWhile ?P (rev l) = c # rev u"
    by simp
  then have "\<not> ?P c"
    by (simp add: dropWhile_eq_Cons_conv)
  with c show False by simp
qed

text \<open>
  C10. The normalisation removes more than blank lines. The normalised text is made of
  the lines of \<open>T\<close> that are not blank, in their order, each without its trailing
  spaces and tabs and nothing else removed from it (a line \<open>l\<close> is what is kept of
  it followed by spaces and tabs only, and what is kept does not end in one), with
  the text behind the last newline; and of that, all leading whitespace is stripped,
  which takes the indentation of the first line with it. So in the normalised text
  no space or tab stands right before a newline, and it does not begin with a
  whitespace character.
\<close>

theorem normalize_strips_line_ends_and_indent:
  "normalize_text T =
     dropWhile isspace
       (join_lines (map rstrip_blanks (filter (\<lambda>l. \<not> blank l) (fst (split_lines T))),
                    snd (split_lines T)))
   \<and> (\<exists>t. l = rstrip_blanks l @ t \<and> blank t)
   \<and> \<not> (\<exists>u c. rstrip_blanks l = u @ [c] \<and> (c = SP \<or> c = TAB))
   \<and> \<not> (\<exists>u c v. normalize_text T = u @ c # NL # v \<and> (c = SP \<or> c = TAB))
   \<and> \<not> (\<exists>c v. normalize_text T = c # v \<and> isspace c)"
proof -
  have "normalize_text T =
     dropWhile isspace
       (join_lines (map rstrip_blanks (filter (\<lambda>l. \<not> blank l) (fst (split_lines T))),
                    snd (split_lines T)))"
    using normalize_text_tidy_lines [of T]
    by (simp add: tidy_lines_def lstrip_def split: prod.splits)
  moreover have "\<not> (\<exists>u c v. normalize_text T = u @ c # NL # v \<and> (c = SP \<or> c = TAB))"
    using normalize_tidy [of T] ws_before_nl_append by force
  ultimately show ?thesis
    using rstrip_blanks_split rstrip_blanks_end normalize_no_leading_space by blast
qed

theorem normalize_strips_line_ends_and_indent_witness:
  "normalize_text ''  a \<newline>\<newline> b  \<newline>c '' = ''a\<newline> b\<newline>c ''"
  using normalize_strips_line_ends_and_indent [of "''  a \<newline>\<newline> b  \<newline>c ''" "''a ''"]
  by (simp add: join_lines_def rstrip_blanks_def blank_def isspace_def)

section \<open>Properties of \<^verbatim>\<open>main\<close>\<close>

lemma feed_lines_stops:
  "feed_lines ops infile p n pre = Inr p' \<Longrightarrow> p_feed ops p' line = Inl err \<Longrightarrow>
     feed_lines ops infile p n (pre @ line # post) =
       Inl (diagnostic infile (n + length pre) line err)"
  by (induction pre arbitrary: p n) (auto split: sum.splits)

lemma main_feed_raises:
  assumes "1 < length argv" and "fs (argv ! 1) = Some (pre @ line # post)"
    and "feed_lines ops (argv ! 1) (p_new ops) 0 pre = Inr p" and "p_feed ops p line = Inl err"
  shows "main ops pp fs dst argv =
     \<lparr>outcome = SysExit 1,
      trace = [OpenIn (argv ! 1), WriteErr (diagnostic (argv ! 1) (length pre) line err)]\<rparr>"
  using assms feed_lines_stops [OF assms(3,4), of post]
  by (simp add: main_def Let_def)

text \<open>
  An exception of \<^verbatim>\<open>p.close()\<close> (line 50 is outside the \<^verbatim>\<open>try\<close>) or of the
  formatter ends the run uncaught: \<^verbatim>\<open>main\<close> writes nothing to the error stream.
\<close>

lemma main_close_raises:
  assumes "1 < length argv" and "fs (argv ! 1) = Some lines"
    and "feed_lines ops (argv ! 1) (p_new ops) 0 lines = Inr p" and "p_close ops p = Inl err"
  shows "main ops pp fs dst argv = \<lparr>outcome = Raised err, trace = [OpenIn (argv ! 1)]\<rparr>"
  using assms by (simp add: main_def Let_def)

lemma main_format_raises:
  assumes "1 < length argv" and "fs (argv ! 1) = Some lines"
    and "feed_lines ops (argv ! 1) (p_new ops) 0 lines = Inr p" and "p_close ops p = Inr p'"
    and "pp (argv ! 1) (fix_content (p_data ops p')) = Inl err"
  shows "main ops pp fs dst argv =
     \<lparr>outcome = Raised err, trace = [OpenIn (argv ! 1), CloseIn]\<rparr>"
  using assms by (simp add: main_def Let_def)

text \<open>
  The rest of what C4 says holds. The destination is touched only after every line was
  fed, the parser closed and the formatter returned; and when all that and the three
  calls on the destination succeed, the run returns, with the normalised text written.
\<close>

lemma main_success:
  assumes "2 < length argv" and "fs (argv ! 1) = Some lines"
    and "feed_lines ops (argv ! 1) (p_new ops) 0 lines = Inr p" and "p_close ops p = Inr p'"
    and "pp (argv ! 1) (fix_content (p_data ops p')) = Inr s"
    and "d_open dst (argv ! 2)" and "d_write dst (argv ! 2) (normalize_text s)"
    and "d_close dst (argv ! 2)"
  shows "main ops pp fs dst argv =
     \<lparr>outcome = Returned,
      trace = [OpenIn (argv ! 1), CloseIn, OpenOut (argv ! 2), WriteOut (normalize_text s),
               CloseOut]\<rparr>"
  using assms by (simp add: main_def Let_def)

lemma main_output_only_on_success:
  assumes "list_ex touches_output (trace (main ops pp fs dst argv))"
  shows "\<exists>lines p p' s. 2 < length argv \<and> fs (argv ! 1) = Some lines
     \<and> feed_lines ops (argv ! 1) (p_new ops) 0 lines = Inr p \<and> p_close ops p = Inr p'
     \<and> pp (argv ! 1) (fix_content (p_data ops p')) = Inr s \<and> d_open dst (argv ! 2)"
  using assms by (auto simp: main_def Let_def split: if_splits option.splits sum.splits)

lemma main_failure_status:
  "outcome (main ops pp fs dst argv) \<noteq> Returned \<Longrightarrow>
     exit_status (outcome (main ops pp fs dst argv)) = 1"
  by (auto simp: main_def Let_def split: if_splits option.splits sum.splits)

text \<open>
  The diagnostic of an \<^verbatim>\<open>HTMLParseError\<close> is one line, if neither the file name
  nor the message holds a newline. The diagnostic of any other exception ends with the
  line as read and a newline: two line ends, whenever the line read has its own.
\<close>

lemma digit_no_NL: "k < 10 \<Longrightarrow> ''0123456789'' ! k \<noteq> NL"
proof -
  assume "k < 10"
  then have "k < length ''0123456789''" by simp
  then have "''0123456789'' ! k \<in> set ''0123456789''" by (rule nth_mem)
  then show ?thesis by auto
qed

lemma dec_digits_no_NL: "NL \<notin> set (dec_digits n)"
proof (induction n rule: dec_digits.induct)
  case (1 n)
  show ?case
  proof (cases "n < 10")
    case True
    then have "dec_digits n = [''0123456789'' ! n]"
      by (subst dec_digits.simps) simp
    with True digit_no_NL [of n] show ?thesis by simp
  next
    case False
    then have "dec_digits n = dec_digits (n div 10) @ [''0123456789'' ! (n mod 10)]"
      by (subst dec_digits.simps) simp
    moreover have "NL \<notin> set (dec_digits (n div 10))"
      using False by (rule "1.IH")
    moreover have "''0123456789'' ! (n mod 10) \<noteq> NL"
      by (rule digit_no_NL) simp
    ultimately show ?thesis by simp
  qed
qed

lemma fmt_d_no_NL: "NL \<notin> set (fmt_d i)"
  by (simp add: fmt_d_def dec_digits_no_NL)

lemma diagnostic_parse_error_single_line:
  "NL \<notin> set infile \<Longrightarrow> NL \<notin> set msg \<Longrightarrow>
     single_line (diagnostic infile n line (HTMLParseError lineno offset msg))"
  by (simp add: single_line_def butlast_append fmt_d_no_NL)

lemma diagnostic_other_error_two_line_ends:
  "\<not> single_line (diagnostic infile n (l @ [NL]) (PyException repr))"
  by (simp add: single_line_def butlast_append)

text \<open>
  C4 is not what the code does, in two places. When feeding a line raises an exception
  other than \<^verbatim>\<open>HTMLParseError\<close>, the text written to the error stream ends with
  the line as read, which has its own newline, and one more newline: two lines, the
  second empty, where the other handler writes one. And a malformed markup error that
  the parser raises when it is closed is caught by nothing, line 50 being outside the
  \<^verbatim>\<open>try\<close>: \<^verbatim>\<open>main\<close> writes no diagnostic at all. The two runs below show it;
  in both the exit status is 1 and the destination is not touched.
\<close>

theorem main_diagnostic_not_single_line:
  "stderr_writes (trace (main demo_ops demo_pp
      [''in.html'' \<mapsto> [''a\<newline>'', ''&#;\<newline>'', ''b'']] demo_dst
      [''g.html2man.py'', ''in.html'', ''out.1'']))
     = [''in.html:2:0: Error (ValueError()): &#;\<newline>\<newline>'']
   \<and> \<not> single_line ''in.html:2:0: Error (ValueError()): &#;\<newline>\<newline>''
   \<and> main demo_ops_eof demo_pp [''in.html'' \<mapsto> [''a\<newline>'', ''<div'']] demo_dst
        [''g.html2man.py'', ''in.html'', ''out.1'']
     = \<lparr>outcome = Raised (HTMLParseError 1 0 ''EOF in middle of construct''),
        trace = [OpenIn ''in.html'']\<rparr>
   \<and> stderr_writes (trace (main demo_ops_eof demo_pp [''in.html'' \<mapsto> [''a\<newline>'', ''<div'']]
        demo_dst [''g.html2man.py'', ''in.html'', ''out.1''])) = []
   \<and> exit_status (outcome (main demo_ops demo_pp
        [''in.html'' \<mapsto> [''a\<newline>'', ''&#;\<newline>'', ''b'']] demo_dst
        [''g.html2man.py'', ''in.html'', ''out.1''])) = 1
   \<and> exit_status (outcome (main demo_ops_eof demo_pp [''in.html'' \<mapsto> [''a\<newline>'', ''<div'']]
        demo_dst [''g.html2man.py'', ''in.html'', ''out.1''])) = 1
   \<and> \<not> list_ex touches_output (trace (main demo_ops demo_pp
        [''in.html'' \<mapsto> [''a\<newline>'', ''&#;\<newline>'', ''b'']] demo_dst
        [''g.html2man.py'', ''in.html'', ''out.1'']))
   \<and> \<not> list_ex touches_output (trace (main demo_ops_eof demo_pp
        [''in.html'' \<mapsto> [''a\<newline>'', ''<div'']] demo_dst
        [''g.html2man.py'', ''in.html'', ''out.1'']))"
  by (simp add: main_def demo_ops_def demo_ops_eof_def single_line_def fmt_d_def
      dec_digits.simps)

text \<open>
  C8. In the same situation the one text written to the error stream is, for an
  \<^verbatim>\<open>HTMLParseError\<close>, the input file name, the error's line number, its offset
  and its message; for any other exception, the input file name, the number of the
  line being fed, counted from 1, the exception's \<^verbatim>\<open>repr\<close> and the line as
  read. The run then ends by \<^verbatim>\<open>sys.exit(1)\<close>.
\<close>

theorem main_diagnostics:
  assumes "1 < length argv" and "fs (argv ! 1) = Some (pre @ line # post)"
    and "feed_lines ops (argv ! 1) (p_new ops) 0 pre = Inr p"
    and "p_feed ops p line = Inl err"
  shows "outcome (main ops pp fs dst argv) = SysExit 1
     \<and> exit_status (outcome (main ops pp fs dst argv)) = 1
     \<and> stderr_writes (trace (main ops pp fs dst argv)) =
        [case err of
           HTMLParseError lineno offset msg \<Rightarrow>
             argv ! 1 @ '':'' @ fmt_d lineno @ '':'' @ fmt_d offset @ '': Parse error: '' @ msg
               @ ''\<newline>''
         | PyException repr \<Rightarrow>
             argv ! 1 @ '':'' @ fmt_d (int (length pre) + 1) @ '':0: Error ('' @ repr @ ''): ''
               @ line @ ''\<newline>'']"
proof -
  have "main ops pp fs dst argv =
     \<lparr>outcome = SysExit 1,
      trace = [OpenIn (argv ! 1), WriteErr (diagnostic (argv ! 1) (length pre) line err)]\<rparr>"
    using assms by (rule main_feed_raises)
  then show ?thesis by (cases err) simp_all
qed

theorem main_diagnostics_witness:
  "stderr_writes (trace (main demo_ops demo_pp
      [''in.html'' \<mapsto> [''a\<newline>'', ''<<\<newline>'', ''b'']] demo_dst
      [''g.html2man.py'', ''in.html'', ''out.1'']))
     = [''in.html:12:7: Parse error: malformed start tag\<newline>'']
   \<and> stderr_writes (trace (main demo_ops demo_pp
      [''in.html'' \<mapsto> [''a\<newline>'', ''&#;\<newline>'', ''b'']] demo_dst
      [''g.html2man.py'', ''in.html'', ''out.1'']))
     = [''in.html:2:0: Error (ValueError()): &#;\<newline>\<newline>'']"
  using
    main_diagnostics
      [where argv = "[''g.html2man.py'', ''in.html'', ''out.1'']"
         and fs = "[''in.html'' \<mapsto> [''a\<newline>'', ''<<\<newline>'', ''b'']]"
         and pre = "[''a\<newline>'']" and line = "''<<\<newline>''" and post = "[''b'']"
         and ops = demo_ops and p = "[Str ''a\<newline>'']"
         and err = "HTMLParseError 12 7 ''malformed start tag''" and pp = demo_pp
         and dst = demo_dst]
    main_diagnostics
      [where argv = "[''g.html2man.py'', ''in.html'', ''out.1'']"
         and fs = "[''in.html'' \<mapsto> [''a\<newline>'', ''&#;\<newline>'', ''b'']]"
         and pre = "[''a\<newline>'']" and line = "''&#;\<newline>''" and post = "[''b'']"
         and ops = demo_ops and p = "[Str ''a\<newline>'']"
         and err = "PyException ''ValueError()''" and pp = demo_pp
         and dst = demo_dst]
  by (simp add: demo_ops_def fmt_d_def dec_digits.simps)

text \<open>
  C9 is not what the code does: when feeding a line raises, \<^verbatim>\<open>main\<close> leaves by
  \<^verbatim>\<open>sys.exit(1)\<close> without the \<^verbatim>\<open>inf.close()\<close> that the other path performs.
  The run on an input whose first line the parser rejects opens the input file,
  writes the diagnostic, and ends; it never closes the file.
\<close>

theorem main_parse_failure_input_left_open:
  "main demo_ops demo_pp [''in.html'' \<mapsto> [''<<\<newline>'']] demo_dst
     [''g.html2man.py'', ''in.html'', ''out.1'']
     = \<lparr>outcome = SysExit 1,
        trace = [OpenIn ''in.html'', WriteErr ''in.html:12:7: Parse error: malformed start tag\<newline>'']\<rparr>
   \<and> CloseIn \<notin> set (trace (main demo_ops demo_pp [''in.html'' \<mapsto> [''<<\<newline>'']] demo_dst
        [''g.html2man.py'', ''in.html'', ''out.1'']))"
  by (simp add: main_def demo_ops_def fmt_d_def dec_digits.simps)

end
